theory Spec2Isabelle
  imports Complex_Main "HOL-Library.Sublist"
begin

section \<open>Hand spray canvas: the sketch of \<open>SprayCanvas\<close>\<close>

text \<open>
  The component holds its data in React state and refs and in the p5 instance; the p5
  callbacks \<open>draw\<close>, \<open>mousePressed\<close>, \<open>keyPressed\<close> and \<open>windowResized\<close> and the
  tracker callback \<open>onResults\<close> read and write it. Here all of it is one record that
  every callback takes and returns. JavaScript numbers are modelled as real numbers with
  exact arithmetic. The raster buffer of the canvas is modelled by the list of circles
  painted on it since it was last transparent, the oldest first.
\<close>

subsection \<open>Data\<close>

text \<open>A tracked point: \<open>landmarks[i].x\<close> and \<open>landmarks[i].y\<close>.\<close>

record NormalizedLandmark =
  lm_x :: real
  lm_y :: real

text \<open>
  The tracker's result. The guard of \<open>draw\<close> tests \<open>results.multiHandLandmarks\<close> for
  being defined before it reads its length, so the field is optional.
\<close>

record Results =
  multiHandLandmarks :: "NormalizedLandmark list list option"

text \<open>
  A colour with its alpha (0 to 255): a grey level, as in \<open>p.stroke(255, 150)\<close>, or a
  palette entry, which is \<open>None\<close> when the palette was read out of range.
\<close>

datatype colour = Grey real real | Css "string option" real

text \<open>The drawing style that \<open>p.push()\<close> saves and \<open>p.pop()\<close> restores.\<close>

record style =
  fillCol :: "colour option"
  strokeCol :: "colour option"
  strokeWt :: real

text \<open>One painted circle: centre, diameter and the style it was painted with.\<close>

record circle =
  cx :: real
  cy :: real
  diam :: real
  fillOf :: "colour option"
  strokeOf :: "colour option"
  weightOf :: real

text \<open>
  The random numbers of p5 are read from two given sequences, standard normal samples and
  uniform samples of [0, 1); the sketch counts how many of each it has used.
\<close>

record rng =
  gauss :: "nat \<Rightarrow> real"
  unif :: "nat \<Rightarrow> real"

record sketch =
  handResultsRef :: "Results option"
  currentColorIndex :: nat
  colorIndexRef :: nat
  width :: real
  height :: real
  canvas :: "circle list"
  cur :: style
  styleStack :: "style list"
  gaussUsed :: nat
  unifUsed :: nat

datatype error = TypeError

definition PALETTE :: "string list" where
  "PALETTE = [''#FF0055'', ''#00FF99'', ''#00CCFF'', ''#FFFF00'', ''#FF6600'',
              ''#CC00FF'', ''#FFFFFF'']"

text \<open>\<open>PALETTE[i]\<close>: undefined out of range.\<close>

definition paletteAt :: "nat \<Rightarrow> string option" where
  "paletteAt i = (if i < length PALETTE then Some (PALETTE ! i) else None)"

text \<open>\<open>landmarks[i]\<close>: undefined out of range.\<close>

definition landmarkAt :: "NormalizedLandmark list \<Rightarrow> nat \<Rightarrow> NormalizedLandmark option" where
  "landmarkAt landmarks i = (if i < length landmarks then Some (landmarks ! i) else None)"

subsection \<open>The p5 calls the sketch makes\<close>

text \<open>
  Modelled from the spec: p5's \<open>constrain\<close> and \<open>map\<close> are library functions, not part
  of the source. The spec calls the first a clamp to the band that saturates and the
  second a linear map between two ranges; these are p5's own formulas for them.
\<close>

definition p_constrain :: "real \<Rightarrow> real \<Rightarrow> real \<Rightarrow> real" where
  "p_constrain n low high = max (min n high) low"

definition p_map :: "real \<Rightarrow> real \<Rightarrow> real \<Rightarrow> real \<Rightarrow> real \<Rightarrow> real" where
  "p_map n start1 stop1 start2 stop2 =
     (n - start1) / (stop1 - start1) * (stop2 - start2) + start2"

text \<open>
  Modelled from the spec: the drawing calls of p5. A circle is painted on the buffer with
  the current style; \<open>clear\<close> resets the buffer to transparent; resizing reallocates
  the buffer and its content is lost.
\<close>

definition p_push :: "sketch \<Rightarrow> sketch" where
  "p_push s = s\<lparr>styleStack := cur s # styleStack s\<rparr>"

definition p_pop :: "sketch \<Rightarrow> sketch" where
  "p_pop s = (case styleStack s of [] \<Rightarrow> s
              | st # rest \<Rightarrow> s\<lparr>cur := st, styleStack := rest\<rparr>)"

definition p_stroke :: "colour \<Rightarrow> sketch \<Rightarrow> sketch" where
  "p_stroke c s = s\<lparr>cur := (cur s)\<lparr>strokeCol := Some c\<rparr>\<rparr>"

definition p_noStroke :: "sketch \<Rightarrow> sketch" where
  "p_noStroke s = s\<lparr>cur := (cur s)\<lparr>strokeCol := None\<rparr>\<rparr>"

definition p_strokeWeight :: "real \<Rightarrow> sketch \<Rightarrow> sketch" where
  "p_strokeWeight w s = s\<lparr>cur := (cur s)\<lparr>strokeWt := w\<rparr>\<rparr>"

definition p_fill :: "colour \<Rightarrow> sketch \<Rightarrow> sketch" where
  "p_fill c s = s\<lparr>cur := (cur s)\<lparr>fillCol := Some c\<rparr>\<rparr>"

definition p_noFill :: "sketch \<Rightarrow> sketch" where
  "p_noFill s = s\<lparr>cur := (cur s)\<lparr>fillCol := None\<rparr>\<rparr>"

definition p_circle :: "real \<Rightarrow> real \<Rightarrow> real \<Rightarrow> sketch \<Rightarrow> sketch" where
  "p_circle px py d s =
     s\<lparr>canvas := canvas s @
          [\<lparr>cx = px, cy = py, diam = d, fillOf = fillCol (cur s),
            strokeOf = strokeCol (cur s), weightOf = strokeWt (cur s)\<rparr>]\<rparr>"

definition p_clear :: "sketch \<Rightarrow> sketch" where
  "p_clear s = s\<lparr>canvas := []\<rparr>"

definition p_resizeCanvas :: "real \<Rightarrow> real \<Rightarrow> sketch \<Rightarrow> sketch" where
  "p_resizeCanvas w h s = s\<lparr>width := w, height := h, canvas := []\<rparr>"

definition p_color :: "string option \<Rightarrow> colour" where
  "p_color hex = Css hex 255"

fun setAlpha :: "colour \<Rightarrow> real \<Rightarrow> colour" where
  "setAlpha (Grey v _) a = Grey v a"
| "setAlpha (Css hex _) a = Css hex a"

definition p_randomGaussian :: "rng \<Rightarrow> real \<Rightarrow> real \<Rightarrow> sketch \<Rightarrow> real \<times> sketch" where
  "p_randomGaussian r mean sd s =
     (gauss r (gaussUsed s) * sd + mean, s\<lparr>gaussUsed := Suc (gaussUsed s)\<rparr>)"

definition p_random :: "rng \<Rightarrow> real \<Rightarrow> real \<Rightarrow> sketch \<Rightarrow> real \<times> sketch" where
  "p_random r lo hi s =
     (unif r (unifUsed s) * (hi - lo) + lo, s\<lparr>unifUsed := Suc (unifUsed s)\<rparr>)"

subsection \<open>Gesture: the distances and the spray position of \<open>draw\<close>\<close>

definition pinchDistance ::
  "NormalizedLandmark \<Rightarrow> NormalizedLandmark \<Rightarrow> real \<Rightarrow> real \<Rightarrow> real" where
  "pinchDistance thumbTip indexTip w h =
     (let pinchDistX = (lm_x thumbTip - lm_x indexTip) * w;
          pinchDistY = (lm_y thumbTip - lm_y indexTip) * h
      in sqrt (pinchDistX * pinchDistX + pinchDistY * pinchDistY))"

definition handSize ::
  "NormalizedLandmark \<Rightarrow> NormalizedLandmark \<Rightarrow> real \<Rightarrow> real \<Rightarrow> real" where
  "handSize wrist middleMCP w h =
     (let sizeDistX = (lm_x wrist - lm_x middleMCP) * w;
          sizeDistY = (lm_y wrist - lm_y middleMCP) * h
      in sqrt (sizeDistX * sizeDistX + sizeDistY * sizeDistY))"

definition sprayX :: "NormalizedLandmark \<Rightarrow> NormalizedLandmark \<Rightarrow> real \<Rightarrow> real" where
  "sprayX thumbTip indexTip w = (1 - (lm_x thumbTip + lm_x indexTip) / 2) * w"

definition sprayY :: "NormalizedLandmark \<Rightarrow> NormalizedLandmark \<Rightarrow> real \<Rightarrow> real" where
  "sprayY thumbTip indexTip h = ((lm_y thumbTip + lm_y indexTip) / 2) * h"

subsection \<open>Intensity: the factor and the four parameters of the spray\<close>

definition factor :: "real \<Rightarrow> real" where
  "factor hs = (let normalizedSize = p_constrain hs 50 300
                in p_map normalizedSize 50 300 1 0)"

definition spreadRadius :: "real \<Rightarrow> real" where
  "spreadRadius hs = p_map (factor hs) 0 1 10 60"

definition particleCount :: "real \<Rightarrow> real" where
  "particleCount hs = p_map (factor hs) 0 1 5 40"

definition particleSizeBase :: "real \<Rightarrow> real" where
  "particleSizeBase hs = p_map (factor hs) 0 1 2 6"

definition opacity :: "real \<Rightarrow> real" where
  "opacity hs = p_map (factor hs) 0 1 50 255"

subsection \<open>The particle loop\<close>

text \<open>
  The body of the loop: two Gaussian offsets with standard deviation a third of the
  spread, a uniform size between half and one and a half times the base, one circle.
\<close>

definition particle :: "rng \<Rightarrow> real \<Rightarrow> real \<Rightarrow> real \<Rightarrow> real \<Rightarrow> sketch \<Rightarrow> sketch" where
  "particle r spread sizeBase sx sy s =
     (let (xOffset, s1) = p_randomGaussian r 0 (spread / 3) s;
          (yOffset, s2) = p_randomGaussian r 0 (spread / 3) s1;
          px = sx + xOffset;
          py = sy + yOffset;
          (pSize, s3) = p_random r (sizeBase * 0.5) (sizeBase * 1.5) s2
      in p_circle px py pSize s3)"

text \<open>
  \<open>for (let i = 0; i < particleCount; i++)\<close>: the bound is a real number and is
  compared with the counter as it is.
\<close>

function particleLoop ::
  "rng \<Rightarrow> real \<Rightarrow> real \<Rightarrow> real \<Rightarrow> real \<Rightarrow> real \<Rightarrow> nat \<Rightarrow> sketch \<Rightarrow> sketch" where
  "particleLoop r pCount spread sizeBase sx sy i s =
     (if real i < pCount then
        particleLoop r pCount spread sizeBase sx sy (Suc i) (particle r spread sizeBase sx sy s)
      else s)"
  by pat_completeness auto
termination
proof (relation "measure (\<lambda>(r, pCount, spread, sizeBase, sx, sy, i, s). nat \<lceil>pCount\<rceil> - i)")
  show "wf (measure (\<lambda>(r, pCount, spread, sizeBase, sx, sy, i, s). nat \<lceil>pCount\<rceil> - i))"
    by simp
next
  fix r :: rng and pCount spread sizeBase sx sy :: real and i :: nat and s :: sketch
  assume "real i < pCount"
  then have "int i < \<lceil>pCount\<rceil>"
    by linarith
  then have "i < nat \<lceil>pCount\<rceil>"
    by linarith
  then show "((r, pCount, spread, sizeBase, sx, sy, Suc i, particle r spread sizeBase sx sy s),
              (r, pCount, spread, sizeBase, sx, sy, i, s))
             \<in> measure (\<lambda>(r, pCount, spread, sizeBase, sx, sy, i, s). nat \<lceil>pCount\<rceil> - i)"
    by simp
qed

declare particleLoop.simps [simp del]

subsection \<open>The callbacks\<close>

text \<open>The cursor: the ring at the spray position and, when pinched, the dot in the
  current colour, between \<open>p.push()\<close> and \<open>p.pop()\<close>.\<close>

definition drawCursor :: "real \<Rightarrow> real \<Rightarrow> real \<Rightarrow> sketch \<Rightarrow> sketch" where
  "drawCursor sx sy pinch s =
     (let s1 = p_push s;
          s2 = p_stroke (Grey 255 150) s1;
          s3 = p_strokeWeight 2 s2;
          s4 = p_noFill s3;
          s5 = p_circle sx sy 15 s4;
          s6 = (if pinch < 60 then
                  (let t1 = p_fill (p_color (paletteAt (colorIndexRef s5))) s5;
                       t2 = p_noStroke t1
                   in p_circle sx sy 8 t2)
                else s5)
      in p_pop s6)"

text \<open>The spray: the body of the second \<open>if (pinchDistance < 60)\<close>.\<close>

definition spray :: "rng \<Rightarrow> real \<Rightarrow> real \<Rightarrow> real \<Rightarrow> sketch \<Rightarrow> sketch" where
  "spray r hs sx sy s =
     (let col = setAlpha (p_color (paletteAt (colorIndexRef s))) (opacity hs);
          s1 = p_noStroke s;
          s2 = p_fill col s1
      in particleLoop r (particleCount hs) (spreadRadius hs) (particleSizeBase hs) sx sy 0 s2)"

text \<open>
  \<open>p.draw\<close>. Reading \<open>.x\<close> of a landmark that the list does not have throws a
  TypeError, before anything is painted.
\<close>

definition draw :: "rng \<Rightarrow> sketch \<Rightarrow> error + sketch" where
  "draw r s =
     (case handResultsRef s of
        None \<Rightarrow> Inr s
      | Some results \<Rightarrow>
          (case multiHandLandmarks results of
             None \<Rightarrow> Inr s
           | Some hands \<Rightarrow>
               if length hands > 0 then
                 (let landmarks = hands ! 0 in
                  case (landmarkAt landmarks 4, landmarkAt landmarks 8,
                        landmarkAt landmarks 0, landmarkAt landmarks 9) of
                    (Some thumbTip, Some indexTip, Some wrist, Some middleMCP) \<Rightarrow>
                      (let pinch = pinchDistance thumbTip indexTip (width s) (height s);
                           hs = handSize wrist middleMCP (width s) (height s);
                           sx = sprayX thumbTip indexTip (width s);
                           sy = sprayY thumbTip indexTip (height s);
                           s1 = drawCursor sx sy pinch s
                       in Inr (if pinch < 60 then spray r hs sx sy s1 else s1))
                  | _ \<Rightarrow> Inl TypeError)
               else Inr s))"

text \<open>The tracker's callback: the new result replaces the old one.\<close>

definition onResults :: "Results \<Rightarrow> sketch \<Rightarrow> sketch" where
  "onResults results s = s\<lparr>handResultsRef := Some results\<rparr>"

text \<open>\<open>setCurrentColorIndex\<close> with an updater, and the effect that copies the state
  into the ref that \<open>draw\<close> reads.\<close>

definition setCurrentColorIndex :: "(nat \<Rightarrow> nat) \<Rightarrow> sketch \<Rightarrow> sketch" where
  "setCurrentColorIndex f s = s\<lparr>currentColorIndex := f (currentColorIndex s)\<rparr>"

definition syncColorRef :: "sketch \<Rightarrow> sketch" where
  "syncColorRef s = s\<lparr>colorIndexRef := currentColorIndex s\<rparr>"

definition mousePressed :: "sketch \<Rightarrow> sketch" where
  "mousePressed s = setCurrentColorIndex (\<lambda>prev. (prev + 1) mod length PALETTE) s"

definition keyPressed :: "string \<Rightarrow> sketch \<Rightarrow> sketch" where
  "keyPressed k s = (if k = '' '' then p_clear s else s)"

definition windowResized :: "real \<Rightarrow> real \<Rightarrow> sketch \<Rightarrow> sketch" where
  "windowResized w h s = p_resizeCanvas w h s"

subsection \<open>Events\<close>

text \<open>
  The callbacks run one at a time, each to its end, in the order the browser delivers
  the events: a render tick, a tracker result, a mouse press on the page, the effect
  that follows a change of the colour state, a click on a swatch of the palette bar
  (\<open>setCurrentColorIndex(index)\<close>), a key press with the key's name, a resize of the
  window with its new inner size. A run stops at the first callback that throws.
\<close>

datatype event =
    Tick
  | OnResults Results
  | MousePressed
  | ColorEffect
  | SwatchClicked nat
  | KeyPressed string
  | WindowResized real real

fun step :: "rng \<Rightarrow> event \<Rightarrow> sketch \<Rightarrow> error + sketch" where
  "step r Tick s = draw r s"
| "step r (OnResults results) s = Inr (onResults results s)"
| "step r MousePressed s = Inr (mousePressed s)"
| "step r ColorEffect s = Inr (syncColorRef s)"
| "step r (SwatchClicked i) s = Inr (setCurrentColorIndex (\<lambda>prev. i) s)"
| "step r (KeyPressed k) s = Inr (keyPressed k s)"
| "step r (WindowResized w h) s = Inr (windowResized w h s)"

fun run :: "rng \<Rightarrow> event list \<Rightarrow> sketch \<Rightarrow> error + sketch" where
  "run r [] s = Inr s"
| "run r (e # es) s = (case step r e s of Inl err \<Rightarrow> Inl err | Inr s' \<Rightarrow> run r es s')"

text \<open>The events that reset the buffer: the space key and a resize.\<close>

fun clearsCanvas :: "event \<Rightarrow> bool" where
  "clearsCanvas (KeyPressed k) = (k = '' '')"
| "clearsCanvas (WindowResized w h) = True"
| "clearsCanvas e = False"

fun isOnResults :: "event \<Rightarrow> bool" where
  "isOnResults (OnResults results) = True"
| "isOnResults e = False"

fun isWindowResized :: "event \<Rightarrow> bool" where
  "isWindowResized (WindowResized w h) = True"
| "isWindowResized e = False"

subsection \<open>What a frame paints, and what the buffer shows\<close>

text \<open>The circles that one call of \<open>draw\<close> adds to the buffer, in the order painted.\<close>

definition frameCircles :: "rng \<Rightarrow> sketch \<Rightarrow> circle list" where
  "frameCircles r s =
     (case draw r s of Inl err \<Rightarrow> [] | Inr s' \<Rightarrow> drop (length (canvas s)) (canvas s'))"

text \<open>
  A frame sprays when it paints a filled circle: the ring of the cursor has no fill, the
  dot of the pinch and the particles have one.
\<close>

definition isFilled :: "circle \<Rightarrow> bool" where
  "isFilled c = (case fillOf c of None \<Rightarrow> False | Some col \<Rightarrow> True)"

definition isSpraying :: "rng \<Rightarrow> sketch \<Rightarrow> bool" where
  "isSpraying r s = list_ex isFilled (frameCircles r s)"

text \<open>
  The pixels are the browser's and no part of the source; here a point of the buffer is
  painted when a circle of the buffer covers it: with a visible fill, the disc; with a
  visible stroke, the band of the stroke's weight on the outline.
\<close>

fun alphaOf :: "colour \<Rightarrow> real" where
  "alphaOf (Grey v a) = a"
| "alphaOf (Css hex a) = a"

definition visible :: "colour option \<Rightarrow> bool" where
  "visible c = (case c of None \<Rightarrow> False | Some col \<Rightarrow> 0 < alphaOf col)"

definition covers :: "circle \<Rightarrow> real \<times> real \<Rightarrow> bool" where
  "covers c p =
     (let d2 = (fst p - cx c) * (fst p - cx c) + (snd p - cy c) * (snd p - cy c);
          inner = diam c / 2 - weightOf c / 2;
          outer = diam c / 2 + weightOf c / 2
      in (visible (fillOf c) \<and> d2 \<le> (diam c / 2) * (diam c / 2)) \<or>
         (visible (strokeOf c) \<and> 0 < weightOf c \<and> 0 \<le> inner \<and>
          inner * inner \<le> d2 \<and> d2 \<le> outer * outer))"

definition painted :: "circle list \<Rightarrow> real \<times> real \<Rightarrow> bool" where
  "painted cs p = list_ex (\<lambda>c. covers c p) cs"

text \<open>The two circles of the cursor, as \<open>draw\<close> paints them.\<close>

definition cursorRing :: "real \<Rightarrow> real \<Rightarrow> circle" where
  "cursorRing sx sy =
     \<lparr>cx = sx, cy = sy, diam = 15, fillOf = None, strokeOf = Some (Grey 255 150),
      weightOf = 2\<rparr>"

definition cursorDot :: "real \<Rightarrow> real \<Rightarrow> nat \<Rightarrow> circle" where
  "cursorDot sx sy i =
     \<lparr>cx = sx, cy = sy, diam = 8, fillOf = Some (Css (paletteAt i) 255), strokeOf = None,
      weightOf = 2\<rparr>"

subsection \<open>Fixtures\<close>

text \<open>
  A hand of 21 landmarks with the four that \<open>draw\<close> reads at their indices 0, 4, 8
  and 9, on a canvas of a given size, after \<open>setup\<close> (transparent buffer, white fill,
  no stroke) and with nothing else having happened yet.
\<close>

definition origin :: NormalizedLandmark where
  "origin = \<lparr>lm_x = 0, lm_y = 0\<rparr>"

definition hand21 ::
  "NormalizedLandmark \<Rightarrow> NormalizedLandmark \<Rightarrow> NormalizedLandmark \<Rightarrow> NormalizedLandmark \<Rightarrow>
   NormalizedLandmark list" where
  "hand21 wrist thumbTip indexTip middleMCP =
     [wrist, origin, origin, origin, thumbTip, origin, origin, origin, indexTip, middleMCP,
      origin, origin, origin, origin, origin, origin, origin, origin, origin, origin, origin]"

definition afterSetup :: "real \<Rightarrow> real \<Rightarrow> sketch" where
  "afterSetup w h =
     \<lparr>handResultsRef = None, currentColorIndex = 0, colorIndexRef = 0,
      width = w, height = h, canvas = [],
      cur = \<lparr>fillCol = Some (Grey 255 255), strokeCol = None, strokeWt = 1\<rparr>,
      styleStack = [], gaussUsed = 0, unifUsed = 0\<rparr>"

definition tracked :: "NormalizedLandmark list \<Rightarrow> real \<Rightarrow> real \<Rightarrow> sketch" where
  "tracked landmarks w h =
     onResults \<lparr>multiHandLandmarks = Some [landmarks]\<rparr> (afterSetup w h)"

definition zeroRng :: rng where
  "zeroRng = \<lparr>gauss = (\<lambda>n. 0), unif = (\<lambda>n. 0)\<rparr>"

section \<open>Properties\<close>

subsection \<open>The particle loop paints one circle for each value of its counter\<close>

lemma particle_canvas:
  "canvas (particle r sp sb sx sy s) =
     canvas s @ [\<lparr>cx = sx + gauss r (gaussUsed s) * (sp / 3),
                  cy = sy + gauss r (Suc (gaussUsed s)) * (sp / 3),
                  diam = unif r (unifUsed s) * (sb * 1.5 - sb * 0.5) + sb * 0.5,
                  fillOf = fillCol (cur s), strokeOf = strokeCol (cur s),
                  weightOf = strokeWt (cur s)\<rparr>]"
  by (simp add: particle_def p_randomGaussian_def p_random_def p_circle_def)

lemma particle_fields:
  "handResultsRef (particle r sp sb sx sy s) = handResultsRef s"
  "currentColorIndex (particle r sp sb sx sy s) = currentColorIndex s"
  "colorIndexRef (particle r sp sb sx sy s) = colorIndexRef s"
  "width (particle r sp sb sx sy s) = width s"
  "height (particle r sp sb sx sy s) = height s"
  "cur (particle r sp sb sx sy s) = cur s"
  "styleStack (particle r sp sb sx sy s) = styleStack s"
  by (simp_all add: particle_def p_randomGaussian_def p_random_def p_circle_def)

lemma particleLoop_fields:
  "handResultsRef (particleLoop r pc sp sb sx sy i s) = handResultsRef s \<and>
   currentColorIndex (particleLoop r pc sp sb sx sy i s) = currentColorIndex s \<and>
   colorIndexRef (particleLoop r pc sp sb sx sy i s) = colorIndexRef s \<and>
   width (particleLoop r pc sp sb sx sy i s) = width s \<and>
   height (particleLoop r pc sp sb sx sy i s) = height s \<and>
   cur (particleLoop r pc sp sb sx sy i s) = cur s \<and>
   styleStack (particleLoop r pc sp sb sx sy i s) = styleStack s"
proof (induction r pc sp sb sx sy i s rule: particleLoop.induct)
  case (1 r pCount spread sizeBase sx sy i s)
  show ?case
  proof (cases "real i < pCount")
    case True
    have unfold: "particleLoop r pCount spread sizeBase sx sy i s =
      particleLoop r pCount spread sizeBase sx sy (Suc i) (particle r spread sizeBase sx sy s)"
      using True by (subst particleLoop.simps) simp
    show ?thesis
      unfolding unfold using "1.IH" [OF True] by (simp add: particle_fields)
  next
    case False
    then show ?thesis by (subst (1 2 3 4 5 6 7) particleLoop.simps) simp
  qed
qed

lemma particleLoop_canvas:
  "\<exists>ps. canvas (particleLoop r pc sp sb sx sy i s) = canvas s @ ps \<and>
        length ps = nat \<lceil>pc\<rceil> - i \<and>
        list_all (\<lambda>c. fillOf c = fillCol (cur s) \<and> strokeOf c = strokeCol (cur s) \<and>
                       (\<exists>n. cx c = sx + gauss r n * (sp / 3) \<and>
                            cy c = sy + gauss r (Suc n) * (sp / 3))) ps"
proof (induction r pc sp sb sx sy i s rule: particleLoop.induct)
  case (1 r pCount spread sizeBase sx sy i s)
  show ?case
  proof (cases "real i < pCount")
    case True
    then have lt: "i < nat \<lceil>pCount\<rceil>" by linarith
    have unfold: "particleLoop r pCount spread sizeBase sx sy i s =
      particleLoop r pCount spread sizeBase sx sy (Suc i) (particle r spread sizeBase sx sy s)"
      using True by (subst particleLoop.simps) simp
    from "1.IH" [OF True] obtain ps where
      ps: "canvas (particleLoop r pCount spread sizeBase sx sy (Suc i)
                     (particle r spread sizeBase sx sy s)) =
           canvas (particle r spread sizeBase sx sy s) @ ps"
        "length ps = nat \<lceil>pCount\<rceil> - Suc i"
        "list_all (\<lambda>c. fillOf c = fillCol (cur (particle r spread sizeBase sx sy s)) \<and>
                        strokeOf c = strokeCol (cur (particle r spread sizeBase sx sy s)) \<and>
                        (\<exists>n. cx c = sx + gauss r n * (spread / 3) \<and>
                             cy c = sy + gauss r (Suc n) * (spread / 3))) ps"
      by blast
    obtain c where c: "canvas (particle r spread sizeBase sx sy s) = canvas s @ [c]"
      "fillOf c = fillCol (cur s)" "strokeOf c = strokeCol (cur s)"
      "cx c = sx + gauss r (gaussUsed s) * (spread / 3)"
      "cy c = sy + gauss r (Suc (gaussUsed s)) * (spread / 3)"
      by (simp add: particle_canvas)
    have "canvas (particleLoop r pCount spread sizeBase sx sy i s) = canvas s @ (c # ps)"
      unfolding unfold using ps(1) c(1) by simp
    moreover have "length (c # ps) = nat \<lceil>pCount\<rceil> - i"
      using ps(2) lt by simp
    moreover have "list_all (\<lambda>c. fillOf c = fillCol (cur s) \<and> strokeOf c = strokeCol (cur s) \<and>
                        (\<exists>n. cx c = sx + gauss r n * (spread / 3) \<and>
                             cy c = sy + gauss r (Suc n) * (spread / 3))) (c # ps)"
      using ps(3) c(2-5) by (auto simp add: particle_fields)
    ultimately show ?thesis by blast
  next
    case False
    then have "nat \<lceil>pCount\<rceil> - i = 0" by linarith
    with False show ?thesis by (subst particleLoop.simps) simp
  qed
qed

subsection \<open>The cursor and the spray\<close>

lemma drawCursor_canvas:
  "canvas (drawCursor sx sy pinch s) =
     canvas s @ cursorRing sx sy #
       (if pinch < 60 then [cursorDot sx sy (colorIndexRef s)] else [])"
  by (simp add: drawCursor_def cursorRing_def cursorDot_def p_push_def p_pop_def p_stroke_def
      p_strokeWeight_def p_noFill_def p_circle_def p_fill_def p_noStroke_def p_color_def Let_def)

lemma drawCursor_fields:
  "handResultsRef (drawCursor sx sy pinch s) = handResultsRef s"
  "currentColorIndex (drawCursor sx sy pinch s) = currentColorIndex s"
  "colorIndexRef (drawCursor sx sy pinch s) = colorIndexRef s"
  "width (drawCursor sx sy pinch s) = width s"
  "height (drawCursor sx sy pinch s) = height s"
  "cur (drawCursor sx sy pinch s) = cur s"
  "styleStack (drawCursor sx sy pinch s) = styleStack s"
  by (simp_all add: drawCursor_def p_push_def p_pop_def p_stroke_def
      p_strokeWeight_def p_noFill_def p_circle_def p_fill_def p_noStroke_def Let_def)

lemma spray_canvas:
  "\<exists>ps. canvas (spray r hs sx sy s) = canvas s @ ps \<and>
        length ps = nat \<lceil>particleCount hs\<rceil> \<and>
        list_all (\<lambda>c. fillOf c = Some (Css (paletteAt (colorIndexRef s)) (opacity hs)) \<and>
                       strokeOf c = None \<and>
                       (\<exists>n. cx c = sx + gauss r n * (spreadRadius hs / 3) \<and>
                            cy c = sy + gauss r (Suc n) * (spreadRadius hs / 3))) ps"
proof -
  let ?s2 = "p_fill (setAlpha (p_color (paletteAt (colorIndexRef s))) (opacity hs)) (p_noStroke s)"
  have eq: "spray r hs sx sy s =
    particleLoop r (particleCount hs) (spreadRadius hs) (particleSizeBase hs) sx sy 0 ?s2"
    by (simp add: spray_def Let_def)
  have "canvas ?s2 = canvas s"
    "fillCol (cur ?s2) = Some (Css (paletteAt (colorIndexRef s)) (opacity hs))"
    "strokeCol (cur ?s2) = None"
    by (simp_all add: p_fill_def p_noStroke_def p_color_def)
  with particleLoop_canvas [of r "particleCount hs" "spreadRadius hs" "particleSizeBase hs" sx sy 0 ?s2]
  show ?thesis unfolding eq by simp
qed

lemma spray_fields:
  "handResultsRef (spray r hs sx sy s) = handResultsRef s"
  "currentColorIndex (spray r hs sx sy s) = currentColorIndex s"
  "colorIndexRef (spray r hs sx sy s) = colorIndexRef s"
  "width (spray r hs sx sy s) = width s"
  "height (spray r hs sx sy s) = height s"
  "styleStack (spray r hs sx sy s) = styleStack s"
  by (simp_all add: spray_def Let_def particleLoop_fields p_fill_def p_noStroke_def)

subsection \<open>One frame\<close>

text \<open>With a hand of at least ten landmarks, \<open>draw\<close> does not throw.\<close>

lemma draw_hand:
  assumes "handResultsRef s = Some res" "multiHandLandmarks res = Some (lms # others)"
    "9 < length lms"
  shows "draw r s =
    Inr (let pinch = pinchDistance (lms ! 4) (lms ! 8) (width s) (height s);
             hs = handSize (lms ! 0) (lms ! 9) (width s) (height s);
             sx = sprayX (lms ! 4) (lms ! 8) (width s);
             sy = sprayY (lms ! 4) (lms ! 8) (height s);
             s1 = drawCursor sx sy pinch s
         in if pinch < 60 then spray r hs sx sy s1 else s1)"
  using assms by (auto simp add: draw_def landmarkAt_def Let_def)

lemma draw_no_hand:
  assumes "handResultsRef s = None \<or>
    (\<exists>res. handResultsRef s = Some res \<and>
      (multiHandLandmarks res = None \<or> multiHandLandmarks res = Some []))"
  shows "draw r s = Inr s"
  using assms by (auto simp add: draw_def)

lemma draw_fields:
  assumes "draw r s = Inr s'"
  shows "handResultsRef s' = handResultsRef s \<and> currentColorIndex s' = currentColorIndex s \<and>
    colorIndexRef s' = colorIndexRef s \<and> width s' = width s \<and> height s' = height s \<and>
    styleStack s' = styleStack s"
  using assms
  by (auto simp add: draw_def Let_def spray_fields drawCursor_fields
      split: option.splits if_splits prod.splits)

lemma draw_Inr_cases:
  assumes "draw r s = Inr s'"
  obtains (idle) "s' = s"
  | (hand) res lms others where "handResultsRef s = Some res"
      "multiHandLandmarks res = Some (lms # others)" "9 < length lms"
proof (cases "handResultsRef s")
  case None
  with assms have "s' = s" by (simp add: draw_def)
  then show ?thesis by (rule idle)
next
  case (Some res)
  show ?thesis
  proof (cases "multiHandLandmarks res")
    case None
    with Some assms have "s' = s" by (simp add: draw_def)
    then show ?thesis by (rule idle)
  next
    case hands: (Some hs)
    show ?thesis
    proof (cases hs)
      case Nil
      with Some hands assms have "s' = s" by (simp add: draw_def)
      then show ?thesis by (rule idle)
    next
      case (Cons lms others)
      have "9 < length lms"
      proof (rule ccontr)
        assume "\<not> 9 < length lms"
        then have "landmarkAt lms 9 = None" by (simp add: landmarkAt_def)
        with Some hands Cons have "draw r s = Inl TypeError"
          by (simp add: draw_def Let_def split: option.splits)
        with assms show False by simp
      qed
      with Some hands Cons show ?thesis by (intro hand) simp_all
    qed
  qed
qed

lemma draw_frame_pinched:
  assumes "handResultsRef s = Some res" "multiHandLandmarks res = Some (lms # others)"
    "9 < length lms"
    and "pinchDistance (lms ! 4) (lms ! 8) (width s) (height s) < 60"
  shows "\<exists>s' ps. draw r s = Inr s' \<and>
      canvas s' = canvas s @
        cursorRing (sprayX (lms ! 4) (lms ! 8) (width s)) (sprayY (lms ! 4) (lms ! 8) (height s)) #
        cursorDot (sprayX (lms ! 4) (lms ! 8) (width s)) (sprayY (lms ! 4) (lms ! 8) (height s))
          (colorIndexRef s) # ps \<and>
      length ps = nat \<lceil>particleCount (handSize (lms ! 0) (lms ! 9) (width s) (height s))\<rceil> \<and>
      list_all (\<lambda>c. fillOf c = Some (Css (paletteAt (colorIndexRef s))
                         (opacity (handSize (lms ! 0) (lms ! 9) (width s) (height s)))) \<and>
                     strokeOf c = None \<and>
                     (\<exists>n. cx c = sprayX (lms ! 4) (lms ! 8) (width s) + gauss r n *
                            (spreadRadius (handSize (lms ! 0) (lms ! 9) (width s) (height s)) / 3) \<and>
                          cy c = sprayY (lms ! 4) (lms ! 8) (height s) + gauss r (Suc n) *
                            (spreadRadius (handSize (lms ! 0) (lms ! 9) (width s) (height s)) / 3))) ps"
proof -
  define pinch where "pinch = pinchDistance (lms ! 4) (lms ! 8) (width s) (height s)"
  define hs where "hs = handSize (lms ! 0) (lms ! 9) (width s) (height s)"
  define sx where "sx = sprayX (lms ! 4) (lms ! 8) (width s)"
  define sy where "sy = sprayY (lms ! 4) (lms ! 8) (height s)"
  let ?s1 = "drawCursor sx sy pinch s"
  have pinched: "pinch < 60"
    using assms(4) by (simp add: pinch_def)
  from spray_canvas [of r hs sx sy ?s1] obtain ps where
    ps: "canvas (spray r hs sx sy ?s1) = canvas ?s1 @ ps"
      "length ps = nat \<lceil>particleCount hs\<rceil>"
      "list_all (\<lambda>c. fillOf c = Some (Css (paletteAt (colorIndexRef ?s1)) (opacity hs)) \<and>
                     strokeOf c = None \<and>
                     (\<exists>n. cx c = sx + gauss r n * (spreadRadius hs / 3) \<and>
                          cy c = sy + gauss r (Suc n) * (spreadRadius hs / 3))) ps"
    by blast
  have "draw r s = Inr (spray r hs sx sy ?s1)"
    using draw_hand [OF assms(1-3), of r] pinched
    by (simp add: Let_def pinch_def hs_def sx_def sy_def)
  moreover have "canvas (spray r hs sx sy ?s1) =
      canvas s @ cursorRing sx sy # cursorDot sx sy (colorIndexRef s) # ps"
    using ps(1) pinched by (simp add: drawCursor_canvas)
  ultimately have "draw r s = Inr (spray r hs sx sy ?s1) \<and>
      canvas (spray r hs sx sy ?s1) =
        canvas s @ cursorRing sx sy # cursorDot sx sy (colorIndexRef s) # ps \<and>
      length ps = nat \<lceil>particleCount hs\<rceil> \<and>
      list_all (\<lambda>c. fillOf c = Some (Css (paletteAt (colorIndexRef s)) (opacity hs)) \<and>
                     strokeOf c = None \<and>
                     (\<exists>n. cx c = sx + gauss r n * (spreadRadius hs / 3) \<and>
                          cy c = sy + gauss r (Suc n) * (spreadRadius hs / 3))) ps"
    using ps(2,3) by (simp add: drawCursor_fields)
  then show ?thesis
    unfolding hs_def sx_def sy_def by blast
qed

lemma draw_frame_open:
  assumes "handResultsRef s = Some res" "multiHandLandmarks res = Some (lms # others)"
    "9 < length lms"
    and "\<not> pinchDistance (lms ! 4) (lms ! 8) (width s) (height s) < 60"
  shows "\<exists>s'. draw r s = Inr s' \<and>
      canvas s' = canvas s @
        [cursorRing (sprayX (lms ! 4) (lms ! 8) (width s)) (sprayY (lms ! 4) (lms ! 8) (height s))]"
  using draw_hand [OF assms(1-3), of r] assms(4)
  by (simp add: Let_def drawCursor_canvas)

lemma draw_prefix:
  assumes "draw r s = Inr s'"
  shows "prefix (canvas s) (canvas s')"
  using assms
proof (cases rule: draw_Inr_cases)
  case idle
  then show ?thesis by simp
next
  case (hand res lms others)
  show ?thesis
  proof (cases "pinchDistance (lms ! 4) (lms ! 8) (width s) (height s) < 60")
    case True
    from draw_frame_pinched [OF hand True, of r] assms show ?thesis
      by (auto simp add: prefix_def)
  next
    case False
    from draw_frame_open [OF hand False, of r] assms show ?thesis
      by (auto simp add: prefix_def)
  qed
qed

subsection \<open>The intensity mapping\<close>

lemma factor_low: "hs \<le> 50 \<Longrightarrow> factor hs = 1"
  by (simp add: factor_def p_constrain_def p_map_def Let_def min_def max_def)

lemma factor_high: "300 \<le> hs \<Longrightarrow> factor hs = 0"
  by (simp add: factor_def p_constrain_def p_map_def Let_def min_def max_def)

lemma factor_band: "50 \<le> hs \<Longrightarrow> hs \<le> 300 \<Longrightarrow> factor hs = (300 - hs) / 250"
  by (simp add: factor_def p_constrain_def p_map_def Let_def min_def max_def field_simps)

lemma factor_range: "0 \<le> factor hs \<and> factor hs \<le> 1"
proof -
  consider "hs \<le> 50" | "50 \<le> hs \<and> hs \<le> 300" | "300 \<le> hs"
    by linarith
  then show ?thesis
  proof cases
    case 1
    then show ?thesis by (simp add: factor_low)
  next
    case 2
    then show ?thesis by (simp add: factor_band)
  next
    case 3
    then show ?thesis by (simp add: factor_high)
  qed
qed

lemma particleCount_range: "5 \<le> particleCount hs \<and> particleCount hs \<le> 40"
  using factor_range [of hs] by (simp add: particleCount_def p_map_def)

text \<open>
  C2. Low-end saturation: for every hand size of at most 50 the factor is 1, and at hand
  size 50 the spread radius is 60, the particle count 40, the base particle size 6 and
  the opacity 255.
\<close>

theorem low_end_saturation:
  assumes "hs \<le> 50"
  shows "factor hs = 1 \<and> spreadRadius 50 = 60 \<and> particleCount 50 = 40 \<and>
    particleSizeBase 50 = 6 \<and> opacity 50 = 255"
  using assms
  by (simp add: factor_low spreadRadius_def particleCount_def particleSizeBase_def
      opacity_def p_map_def)

theorem low_end_saturation_witness:
  "(20::real) \<le> 50 \<and> factor 20 = 1 \<and> spreadRadius 50 = 60 \<and> particleCount 50 = 40 \<and>
    particleSizeBase 50 = 6 \<and> opacity 50 = 255"
  using low_end_saturation [of 20] by simp

text \<open>
  C3. High-end saturation: for every hand size of at least 300 the factor is 0, and at
  hand size 300 the spread radius is 10, the particle count 5, the base particle size 2
  and the opacity 50.
\<close>

theorem high_end_saturation:
  assumes "300 \<le> hs"
  shows "factor hs = 0 \<and> spreadRadius 300 = 10 \<and> particleCount 300 = 5 \<and>
    particleSizeBase 300 = 2 \<and> opacity 300 = 50"
  using assms
  by (simp add: factor_high spreadRadius_def particleCount_def particleSizeBase_def
      opacity_def p_map_def)

theorem high_end_saturation_witness:
  "(300::real) \<le> 1000 \<and> factor 1000 = 0 \<and> spreadRadius 300 = 10 \<and> particleCount 300 = 5 \<and>
    particleSizeBase 300 = 2 \<and> opacity 300 = 50"
  using high_end_saturation [of 1000] by simp

text \<open>
  C5. The four parameters are antitone in the hand size: for two hand sizes in [50, 300],
  the smaller one gives a spread radius, a particle count, a base particle size and an
  opacity that are at least those of the larger one.
\<close>

theorem parameters_antitone:
  assumes "50 \<le> hs1" "hs1 < hs2" "hs2 \<le> 300"
  shows "spreadRadius hs2 \<le> spreadRadius hs1 \<and> particleCount hs2 \<le> particleCount hs1 \<and>
    particleSizeBase hs2 \<le> particleSizeBase hs1 \<and> opacity hs2 \<le> opacity hs1"
proof -
  have f: "factor hs1 = (300 - hs1) / 250" "factor hs2 = (300 - hs2) / 250"
    using assms by (simp_all add: factor_band)
  show ?thesis
    using assms(2)
    by (simp add: f spreadRadius_def particleCount_def particleSizeBase_def
      opacity_def p_map_def)
qed

theorem parameters_antitone_witness:
  "(50::real) \<le> 100 \<and> (100::real) < 200 \<and> (200::real) \<le> 300 \<and>
   spreadRadius 200 \<le> spreadRadius 100 \<and> particleCount 200 \<le> particleCount 100 \<and>
   particleSizeBase 200 \<le> particleSizeBase 100 \<and> opacity 200 \<le> opacity 100 \<and>
   spreadRadius 100 = 50 \<and> spreadRadius 200 = 30"
proof -
  have "spreadRadius 100 = 50" "spreadRadius 200 = 30"
    by (simp_all add: factor_band spreadRadius_def p_map_def)
  then show ?thesis
    using parameters_antitone [of 100 200] by simp
qed

subsection \<open>The palette\<close>

lemma mousePressed_index:
  "currentColorIndex (mousePressed s) = (currentColorIndex s + 1) mod 7"
  by (simp add: mousePressed_def setCurrentColorIndex_def PALETTE_def)

lemma mousePressed_pow:
  "currentColorIndex ((mousePressed ^^ n) s) =
     (if n = 0 then currentColorIndex s else (currentColorIndex s + n) mod 7)"
proof (induction n)
  case 0
  show ?case by simp
next
  case (Suc n)
  show ?case
  proof (cases "n = 0")
    case True
    then show ?thesis by (simp add: mousePressed_index)
  next
    case False
    with Suc show ?thesis
      by (simp add: mousePressed_index mod_Suc_eq)
  qed
qed

text \<open>
  C8. The palette has exactly 7 colours and cycling is modular: from colour index 0,
  after n mouse presses in a row the colour index is n mod 7, so it lies in 0..6; the
  ref that \<open>draw\<close> reads holds the same value once the effect has run.
\<close>

theorem palette_cycling:
  assumes "currentColorIndex s = 0"
  shows "length PALETTE = 7 \<and>
    currentColorIndex ((mousePressed ^^ n) s) = n mod 7 \<and>
    currentColorIndex ((mousePressed ^^ n) s) \<in> {0..6} \<and>
    colorIndexRef (syncColorRef ((mousePressed ^^ n) s)) = n mod 7"
proof -
  have len: "length PALETTE = 7"
    by (simp add: PALETTE_def)
  have idx: "currentColorIndex ((mousePressed ^^ n) s) = n mod 7"
    using assms by (simp add: mousePressed_pow)
  have "n mod 7 \<le> 6"
    by simp
  with len idx show ?thesis
    by (simp add: syncColorRef_def)
qed

theorem palette_cycling_witness:
  "currentColorIndex (afterSetup 1000 800) = 0 \<and>
   currentColorIndex ((mousePressed ^^ 9) (afterSetup 1000 800)) = 2 \<and>
   colorIndexRef (syncColorRef ((mousePressed ^^ 9) (afterSetup 1000 800))) = 2"
proof -
  have start: "currentColorIndex (afterSetup 1000 800) = 0"
    by (simp add: afterSetup_def)
  show ?thesis
    using start palette_cycling [OF start, of 9] by simp
qed

subsection \<open>The keyboard\<close>

text \<open>
  C10. Only the space key clears: a key press whose key is not the space character
  leaves the sketch, and so the buffer, as it was; a press of the space key leaves the
  buffer transparent and changes nothing else.
\<close>

theorem only_space_clears:
  "(k \<noteq> '' '' \<longrightarrow> keyPressed k s = s) \<and>
   (k = '' '' \<longrightarrow> keyPressed k s = s\<lparr>canvas := []\<rparr>) \<and>
   canvas (keyPressed k s) = (if k = '' '' then [] else canvas s)"
  by (simp add: keyPressed_def p_clear_def)

theorem only_space_clears_witness:
  "keyPressed ''a'' (p_circle 1 2 3 (afterSetup 1000 800)) = p_circle 1 2 3 (afterSetup 1000 800) \<and>
   canvas (keyPressed ''a'' (p_circle 1 2 3 (afterSetup 1000 800))) \<noteq> [] \<and>
   canvas (keyPressed '' '' (p_circle 1 2 3 (afterSetup 1000 800))) = []"
proof -
  have "canvas (p_circle 1 2 3 (afterSetup 1000 800)) \<noteq> []"
    by (simp add: p_circle_def)
  then show ?thesis
    using only_space_clears [of "''a''" "p_circle 1 2 3 (afterSetup 1000 800)"]
      only_space_clears [of "'' ''" "p_circle 1 2 3 (afterSetup 1000 800)"]
    by simp
qed

subsection \<open>What one frame paints\<close>

lemma frameCircles_pinched:
  assumes "handResultsRef s = Some res" "multiHandLandmarks res = Some (lms # others)"
    "9 < length lms"
    and "pinchDistance (lms ! 4) (lms ! 8) (width s) (height s) < 60"
  shows "\<exists>ps. frameCircles r s =
        cursorRing (sprayX (lms ! 4) (lms ! 8) (width s)) (sprayY (lms ! 4) (lms ! 8) (height s)) #
        cursorDot (sprayX (lms ! 4) (lms ! 8) (width s)) (sprayY (lms ! 4) (lms ! 8) (height s))
          (colorIndexRef s) # ps \<and>
      length ps = nat \<lceil>particleCount (handSize (lms ! 0) (lms ! 9) (width s) (height s))\<rceil> \<and>
      list_all (\<lambda>c. fillOf c = Some (Css (paletteAt (colorIndexRef s))
                         (opacity (handSize (lms ! 0) (lms ! 9) (width s) (height s)))) \<and>
                     strokeOf c = None \<and>
                     (\<exists>n. cx c = sprayX (lms ! 4) (lms ! 8) (width s) + gauss r n *
                            (spreadRadius (handSize (lms ! 0) (lms ! 9) (width s) (height s)) / 3) \<and>
                          cy c = sprayY (lms ! 4) (lms ! 8) (height s) + gauss r (Suc n) *
                            (spreadRadius (handSize (lms ! 0) (lms ! 9) (width s) (height s)) / 3))) ps"
  using draw_frame_pinched [OF assms, of r]
  by (auto simp add: frameCircles_def)

lemma frameCircles_open:
  assumes "handResultsRef s = Some res" "multiHandLandmarks res = Some (lms # others)"
    "9 < length lms"
    and "\<not> pinchDistance (lms ! 4) (lms ! 8) (width s) (height s) < 60"
  shows "frameCircles r s =
        [cursorRing (sprayX (lms ! 4) (lms ! 8) (width s)) (sprayY (lms ! 4) (lms ! 8) (height s))]"
  using draw_frame_open [OF assms, of r]
  by (auto simp add: frameCircles_def)

lemma isFilled_cursor:
  "\<not> isFilled (cursorRing sx sy)" "isFilled (cursorDot sx sy i)"
  by (simp_all add: isFilled_def cursorRing_def cursorDot_def)

lemma pinchDistance_level:
  "lm_y thumbTip = lm_y indexTip \<Longrightarrow>
   pinchDistance thumbTip indexTip w h = \<bar>(lm_x thumbTip - lm_x indexTip) * w\<bar>"
  by (simp add: pinchDistance_def Let_def)

lemma handSize_level:
  "lm_y wrist = lm_y middleMCP \<Longrightarrow>
   handSize wrist middleMCP w h = \<bar>(lm_x wrist - lm_x middleMCP) * w\<bar>"
  by (simp add: handSize_def Let_def)

lemma tracked_fields:
  "handResultsRef (tracked lms w h) = Some \<lparr>multiHandLandmarks = Some [lms]\<rparr>"
  "width (tracked lms w h) = w" "height (tracked lms w h) = h"
  "canvas (tracked lms w h) = []" "colorIndexRef (tracked lms w h) = 0"
  by (simp_all add: tracked_def onResults_def afterSetup_def)

lemma hand21_nth:
  "length (hand21 a b c d) = 21"
  "hand21 a b c d ! 0 = a" "hand21 a b c d ! 4 = b"
  "hand21 a b c d ! 8 = c" "hand21 a b c d ! 9 = d"
  by (simp_all add: hand21_def)

text \<open>
  C1. The spraying state is strictly below threshold: for every landmark set that
  \<open>draw\<close> can read, the frame sprays (it paints a filled circle, and it paints
  particles beyond the two circles of the cursor) exactly when the screen-space distance
  between thumb tip and index fingertip is less than 60 pixels. The witness has the two
  boundary cases: at distance 59.999 the frame sprays, at distance 60 it does not.
\<close>

theorem pinch_threshold_strict:
  assumes "handResultsRef s = Some res" "multiHandLandmarks res = Some (lms # others)"
    "9 < length lms"
  shows "(isSpraying r s \<longleftrightarrow>
            pinchDistance (lms ! 4) (lms ! 8) (width s) (height s) < 60) \<and>
         (2 < length (frameCircles r s) \<longleftrightarrow>
            pinchDistance (lms ! 4) (lms ! 8) (width s) (height s) < 60)"
proof (cases "pinchDistance (lms ! 4) (lms ! 8) (width s) (height s) < 60")
  case True
  have "0 < nat \<lceil>particleCount (handSize (lms ! 0) (lms ! 9) (width s) (height s))\<rceil>"
    using particleCount_range [of "handSize (lms ! 0) (lms ! 9) (width s) (height s)"]
    by linarith
  with frameCircles_pinched [OF assms True, of r] True show ?thesis
    by (auto simp add: isSpraying_def isFilled_cursor)
next
  case False
  from frameCircles_open [OF assms False, of r] False show ?thesis
    by (simp add: isSpraying_def isFilled_cursor)
qed

theorem pinch_threshold_strict_witness:
  "pinchDistance \<lparr>lm_x = 0.059999, lm_y = 0.5\<rparr> \<lparr>lm_x = 0, lm_y = 0.5\<rparr> 1000 800 = 59.999 \<and>
   isSpraying zeroRng
     (tracked (hand21 origin \<lparr>lm_x = 0.059999, lm_y = 0.5\<rparr> \<lparr>lm_x = 0, lm_y = 0.5\<rparr> origin)
        1000 800) \<and>
   pinchDistance \<lparr>lm_x = 0.06, lm_y = 0.5\<rparr> \<lparr>lm_x = 0, lm_y = 0.5\<rparr> 1000 800 = 60 \<and>
   \<not> isSpraying zeroRng
     (tracked (hand21 origin \<lparr>lm_x = 0.06, lm_y = 0.5\<rparr> \<lparr>lm_x = 0, lm_y = 0.5\<rparr> origin)
        1000 800) \<and>
   2 < length (frameCircles zeroRng
     (tracked (hand21 origin \<lparr>lm_x = 0.059999, lm_y = 0.5\<rparr> \<lparr>lm_x = 0, lm_y = 0.5\<rparr> origin)
        1000 800)) \<and>
   \<not> 2 < length (frameCircles zeroRng
     (tracked (hand21 origin \<lparr>lm_x = 0.06, lm_y = 0.5\<rparr> \<lparr>lm_x = 0, lm_y = 0.5\<rparr> origin)
        1000 800))"
proof -
  let ?a = "hand21 origin \<lparr>lm_x = 0.059999, lm_y = 0.5\<rparr> \<lparr>lm_x = 0, lm_y = 0.5\<rparr> origin"
  let ?b = "hand21 origin \<lparr>lm_x = 0.06, lm_y = 0.5\<rparr> \<lparr>lm_x = 0, lm_y = 0.5\<rparr> origin"
  have pa: "pinchDistance \<lparr>lm_x = 0.059999, lm_y = 0.5\<rparr> \<lparr>lm_x = 0, lm_y = 0.5\<rparr> 1000 800 = 59.999"
    by (simp add: pinchDistance_level)
  have pb: "pinchDistance \<lparr>lm_x = 0.06, lm_y = 0.5\<rparr> \<lparr>lm_x = 0, lm_y = 0.5\<rparr> 1000 800 = 60"
    by (simp add: pinchDistance_level)
  have ha: "handResultsRef (tracked ?a 1000 800) = Some \<lparr>multiHandLandmarks = Some [?a]\<rparr>"
    "multiHandLandmarks \<lparr>multiHandLandmarks = Some [?a]\<rparr> = Some (?a # [])"
    "9 < length ?a"
    by (simp_all add: tracked_fields hand21_nth)
  have hb: "handResultsRef (tracked ?b 1000 800) = Some \<lparr>multiHandLandmarks = Some [?b]\<rparr>"
    "multiHandLandmarks \<lparr>multiHandLandmarks = Some [?b]\<rparr> = Some (?b # [])"
    "9 < length ?b"
    by (simp_all add: tracked_fields hand21_nth)
  from pinch_threshold_strict [OF ha, of zeroRng] pinch_threshold_strict [OF hb, of zeroRng]
    pa pb show ?thesis
    by (simp add: tracked_fields hand21_nth)
qed


subsection \<open>The emission point\<close>

lemma sprayX_sprayY_formula:
  "sprayX a b w = (1 - (lm_x a + lm_x b) / 2) * w"
  "sprayY a b h = ((lm_y a + lm_y b) / 2) * h"
  by (simp_all add: sprayX_def sprayY_def)

text \<open>
  C4. The emission point is mirrored horizontally and direct vertically: with X the
  canvas width times one minus the mean of the two tips' x, and Y the canvas height
  times the mean of their y, the frame's cursor ring is centred at (X, Y), and every
  further circle of the frame is centred there too or displaced from there by two
  Gaussian samples scaled by a third of the spread radius. The witness has both tips at
  (0.2, 0.5) on a canvas of 1000 by 800: the point is (800, 400).
\<close>

theorem emission_point_mirrored:
  assumes "handResultsRef s = Some res" "multiHandLandmarks res = Some (lms # others)"
    "9 < length lms"
  shows "let X = (1 - (lm_x (lms ! 4) + lm_x (lms ! 8)) / 2) * width s;
             Y = ((lm_y (lms ! 4) + lm_y (lms ! 8)) / 2) * height s;
             sd = spreadRadius (handSize (lms ! 0) (lms ! 9) (width s) (height s)) / 3
         in \<exists>rest. frameCircles r s = cursorRing X Y # rest \<and>
              list_all (\<lambda>c. (cx c = X \<and> cy c = Y) \<or>
                             (\<exists>n. cx c = X + gauss r n * sd \<and>
                                  cy c = Y + gauss r (Suc n) * sd)) rest"
proof (cases "pinchDistance (lms ! 4) (lms ! 8) (width s) (height s) < 60")
  case True
  from frameCircles_pinched [OF assms True, of r] obtain ps where
    ps: "frameCircles r s =
        cursorRing (sprayX (lms ! 4) (lms ! 8) (width s)) (sprayY (lms ! 4) (lms ! 8) (height s)) #
        cursorDot (sprayX (lms ! 4) (lms ! 8) (width s)) (sprayY (lms ! 4) (lms ! 8) (height s))
          (colorIndexRef s) # ps"
      "list_all (\<lambda>c. fillOf c = Some (Css (paletteAt (colorIndexRef s))
                         (opacity (handSize (lms ! 0) (lms ! 9) (width s) (height s)))) \<and>
                     strokeOf c = None \<and>
                     (\<exists>n. cx c = sprayX (lms ! 4) (lms ! 8) (width s) + gauss r n *
                            (spreadRadius (handSize (lms ! 0) (lms ! 9) (width s) (height s)) / 3) \<and>
                          cy c = sprayY (lms ! 4) (lms ! 8) (height s) + gauss r (Suc n) *
                            (spreadRadius (handSize (lms ! 0) (lms ! 9) (width s) (height s)) / 3))) ps"
    by blast
  have "list_all (\<lambda>c. (cx c = sprayX (lms ! 4) (lms ! 8) (width s) \<and>
                        cy c = sprayY (lms ! 4) (lms ! 8) (height s)) \<or>
                     (\<exists>n. cx c = sprayX (lms ! 4) (lms ! 8) (width s) + gauss r n *
                            (spreadRadius (handSize (lms ! 0) (lms ! 9) (width s) (height s)) / 3) \<and>
                          cy c = sprayY (lms ! 4) (lms ! 8) (height s) + gauss r (Suc n) *
                            (spreadRadius (handSize (lms ! 0) (lms ! 9) (width s) (height s)) / 3)))
          (cursorDot (sprayX (lms ! 4) (lms ! 8) (width s)) (sprayY (lms ! 4) (lms ! 8) (height s))
          (colorIndexRef s) # ps)"
    using ps(2) by (simp add: cursorDot_def list_all_iff)
  with ps(1) show ?thesis
    unfolding Let_def sprayX_sprayY_formula by blast
next
  case False
  from frameCircles_open [OF assms False, of r] show ?thesis
    by (simp add: sprayX_sprayY_formula)
qed

theorem emission_point_mirrored_witness:
  "\<exists>rest. frameCircles zeroRng
      (tracked (hand21 origin \<lparr>lm_x = 0.2, lm_y = 0.5\<rparr> \<lparr>lm_x = 0.2, lm_y = 0.5\<rparr> origin)
         1000 800) = cursorRing 800 400 # rest \<and>
     list_all (\<lambda>c. cx c = 800 \<and> cy c = 400) rest"
proof -
  let ?a = "hand21 origin \<lparr>lm_x = 0.2, lm_y = 0.5\<rparr> \<lparr>lm_x = 0.2, lm_y = 0.5\<rparr> origin"
  have "handResultsRef (tracked ?a 1000 800) = Some \<lparr>multiHandLandmarks = Some [?a]\<rparr>"
    "multiHandLandmarks \<lparr>multiHandLandmarks = Some [?a]\<rparr> = Some (?a # [])"
    "9 < length ?a"
    by (simp_all add: tracked_fields hand21_nth)
  from emission_point_mirrored [OF this, of zeroRng] show ?thesis
    by (simp add: Let_def tracked_fields hand21_nth zeroRng_def)
qed

subsection \<open>The number of particles of a frame\<close>

text \<open>
  C6, as amended. In every spraying frame, after the ring and the dot of the cursor,
  \<open>draw\<close> paints exactly as many filled circles as the particle count rounded up to
  the next integer: one for each value 0, 1, 2, ... of the loop counter that is below
  the particle count.
\<close>

theorem spray_paints_ceiling:
  assumes "handResultsRef s = Some res" "multiHandLandmarks res = Some (lms # others)"
    "9 < length lms"
    and "pinchDistance (lms ! 4) (lms ! 8) (width s) (height s) < 60"
  shows "\<exists>ps. frameCircles r s =
        cursorRing (sprayX (lms ! 4) (lms ! 8) (width s)) (sprayY (lms ! 4) (lms ! 8) (height s)) #
        cursorDot (sprayX (lms ! 4) (lms ! 8) (width s)) (sprayY (lms ! 4) (lms ! 8) (height s))
          (colorIndexRef s) # ps \<and>
      int (length ps) = \<lceil>particleCount (handSize (lms ! 0) (lms ! 9) (width s) (height s))\<rceil> \<and>
      list_all isFilled ps"
proof -
  from frameCircles_pinched [OF assms, of r] obtain ps where
    ps: "frameCircles r s =
        cursorRing (sprayX (lms ! 4) (lms ! 8) (width s)) (sprayY (lms ! 4) (lms ! 8) (height s)) #
        cursorDot (sprayX (lms ! 4) (lms ! 8) (width s)) (sprayY (lms ! 4) (lms ! 8) (height s))
          (colorIndexRef s) # ps"
      "length ps = nat \<lceil>particleCount (handSize (lms ! 0) (lms ! 9) (width s) (height s))\<rceil>"
      "list_all (\<lambda>c. fillOf c = Some (Css (paletteAt (colorIndexRef s))
                         (opacity (handSize (lms ! 0) (lms ! 9) (width s) (height s)))) \<and>
                     strokeOf c = None \<and>
                     (\<exists>n. cx c = sprayX (lms ! 4) (lms ! 8) (width s) + gauss r n *
                            (spreadRadius (handSize (lms ! 0) (lms ! 9) (width s) (height s)) / 3) \<and>
                          cy c = sprayY (lms ! 4) (lms ! 8) (height s) + gauss r (Suc n) *
                            (spreadRadius (handSize (lms ! 0) (lms ! 9) (width s) (height s)) / 3))) ps"
    by blast
  have "0 \<le> \<lceil>particleCount (handSize (lms ! 0) (lms ! 9) (width s) (height s))\<rceil>"
    using particleCount_range [of "handSize (lms ! 0) (lms ! 9) (width s) (height s)"]
    by linarith
  with ps(2) have "int (length ps) =
      \<lceil>particleCount (handSize (lms ! 0) (lms ! 9) (width s) (height s))\<rceil>"
    by simp
  moreover have "list_all isFilled ps"
    using ps(3) by (simp add: list_all_iff isFilled_def)
  ultimately show ?thesis
    using ps(1) by blast
qed

lemma particleCount_299: "particleCount 299 = 5.14"
  by (simp add: particleCount_def factor_band p_map_def)

theorem spray_paints_ceiling_witness:
  "\<exists>ps. frameCircles zeroRng
      (tracked (hand21 \<lparr>lm_x = 0.299, lm_y = 0\<rparr> origin origin origin) 1000 800) =
        cursorRing 1000 0 # cursorDot 1000 0 0 # ps \<and>
      length ps = 6 \<and> list_all isFilled ps"
proof -
  let ?a = "hand21 \<lparr>lm_x = 0.299, lm_y = 0\<rparr> origin origin origin"
  have hand: "handResultsRef (tracked ?a 1000 800) = Some \<lparr>multiHandLandmarks = Some [?a]\<rparr>"
    "multiHandLandmarks \<lparr>multiHandLandmarks = Some [?a]\<rparr> = Some (?a # [])"
    "9 < length ?a"
    by (simp_all add: tracked_fields hand21_nth)
  have pinch: "pinchDistance (?a ! 4) (?a ! 8) (width (tracked ?a 1000 800))
      (height (tracked ?a 1000 800)) < 60"
    by (simp add: hand21_nth tracked_fields pinchDistance_level)
  have hs: "handSize (?a ! 0) (?a ! 9) (width (tracked ?a 1000 800))
      (height (tracked ?a 1000 800)) = 299"
    by (simp add: hand21_nth tracked_fields handSize_level origin_def)
  have c: "\<lceil>particleCount 299\<rceil> = 6"
    by (simp add: particleCount_299)
  from spray_paints_ceiling [OF hand pinch, of zeroRng] show ?thesis
    unfolding hs c
    by (simp add: tracked_fields hand21_nth sprayX_def sprayY_def origin_def)
qed

text \<open>
  C6, as stated, fails: at hand size 299 the particle count is 5.14, which rounds to 5,
  and the frame paints 6 particles after the two circles of the cursor.
\<close>

theorem particle_count_round_counterexample:
  "length (drop 2 (frameCircles zeroRng
      (tracked (hand21 \<lparr>lm_x = 0.299, lm_y = 0\<rparr> origin origin origin) 1000 800))) = 6 \<and>
   round (particleCount (handSize \<lparr>lm_x = 0.299, lm_y = 0\<rparr> origin 1000 800)) = 5"
proof -
  let ?a = "hand21 \<lparr>lm_x = 0.299, lm_y = 0\<rparr> origin origin origin"
  have hand: "handResultsRef (tracked ?a 1000 800) = Some \<lparr>multiHandLandmarks = Some [?a]\<rparr>"
    "multiHandLandmarks \<lparr>multiHandLandmarks = Some [?a]\<rparr> = Some (?a # [])"
    "9 < length ?a"
    by (simp_all add: tracked_fields hand21_nth)
  have pinch: "pinchDistance (?a ! 4) (?a ! 8) (width (tracked ?a 1000 800))
      (height (tracked ?a 1000 800)) < 60"
    by (simp add: hand21_nth tracked_fields pinchDistance_level)
  have hs: "handSize (?a ! 0) (?a ! 9) (width (tracked ?a 1000 800))
      (height (tracked ?a 1000 800)) = 299"
    by (simp add: hand21_nth tracked_fields handSize_level origin_def)
  have hs': "handSize \<lparr>lm_x = 0.299, lm_y = 0\<rparr> origin 1000 800 = 299"
    by (simp add: handSize_level origin_def)
  have c: "nat \<lceil>particleCount 299\<rceil> = 6"
    by (simp add: particleCount_299)
  have r: "round (particleCount 299) = 5"
    by (simp add: particleCount_299 round_def)
  from frameCircles_pinched [OF hand pinch, of zeroRng] obtain ps where
    "frameCircles zeroRng (tracked ?a 1000 800) =
       cursorRing (sprayX (?a ! 4) (?a ! 8) (width (tracked ?a 1000 800)))
         (sprayY (?a ! 4) (?a ! 8) (height (tracked ?a 1000 800))) #
       cursorDot (sprayX (?a ! 4) (?a ! 8) (width (tracked ?a 1000 800)))
         (sprayY (?a ! 4) (?a ! 8) (height (tracked ?a 1000 800)))
         (colorIndexRef (tracked ?a 1000 800)) # ps"
    "length ps = 6"
    unfolding hs c by blast
  then have "length (drop 2 (frameCircles zeroRng (tracked ?a 1000 800))) = 6"
    by simp
  then show ?thesis
    unfolding hs' r by simp
qed

subsection \<open>The buffer accumulates\<close>

lemma step_prefix:
  assumes "step r e s = Inr s'" "\<not> clearsCanvas e"
  shows "prefix (canvas s) (canvas s')"
proof (cases e)
  case Tick
  with assms show ?thesis by (simp add: draw_prefix)
next
  case (KeyPressed k)
  with assms show ?thesis by (auto simp add: keyPressed_def)
next
  case (WindowResized w h)
  with assms show ?thesis by simp
qed (use assms in \<open>auto simp add: onResults_def mousePressed_def syncColorRef_def
      setCurrentColorIndex_def\<close>)

lemma run_prefix:
  assumes "run r es s = Inr s'" "list_all (\<lambda>e. \<not> clearsCanvas e) es"
  shows "prefix (canvas s) (canvas s')"
  using assms
proof (induction es arbitrary: s)
  case Nil
  then show ?case by simp
next
  case (Cons e es)
  from Cons.prems(1) obtain s1 where s1: "step r e s = Inr s1" "run r es s1 = Inr s'"
    by (auto split: sum.splits)
  from s1(1) Cons.prems(2) have "prefix (canvas s) (canvas s1)"
    by (simp add: step_prefix)
  moreover from Cons.IH [OF s1(2)] Cons.prems(2) have "prefix (canvas s1) (canvas s')"
    by simp
  ultimately show ?case by (rule prefix_order.trans)
qed

lemma painted_append: "painted (xs @ ys) p \<longleftrightarrow> painted xs p \<or> painted ys p"
  by (simp add: painted_def list_ex_append)

lemma painted_prefix:
  assumes "prefix xs ys" "painted xs p"
  shows "painted ys p"
  using assms by (auto simp add: prefix_def painted_append)

text \<open>
  C7. The buffer accumulates within a clear-epoch: over any run of callbacks, render ticks
  included, none of which is a clear (the space key) or a resize, the circles on the
  buffer at the start are still on it at the end, below whatever was painted since, and
  every point painted at the start is still painted at the end. In particular
  \<open>draw\<close> itself never clears: two consecutive frames are the run of one tick
  from the state the first frame left, as in the witness.
\<close>

theorem canvas_accumulates:
  assumes "run r es s = Inr s'" "list_all (\<lambda>e. \<not> clearsCanvas e) es"
  shows "prefix (canvas s) (canvas s') \<and> (painted (canvas s) p \<longrightarrow> painted (canvas s') p)"
  using run_prefix [OF assms] painted_prefix by blast

lemma draw_ok:
  assumes "handResultsRef s = Some res" "multiHandLandmarks res = Some (lms # others)"
    "9 < length lms"
  shows "\<exists>s'. draw r s = Inr s'"
  using draw_hand [OF assms, of r] by simp

theorem canvas_accumulates_witness:
  "\<exists>s1 s2.
     run zeroRng [Tick]
       (tracked (hand21 origin \<lparr>lm_x = 0.2, lm_y = 0.5\<rparr> \<lparr>lm_x = 0.2, lm_y = 0.5\<rparr> origin)
          1000 800) = Inr s1 \<and>
     run zeroRng [Tick] s1 = Inr s2 \<and>
     painted (canvas s1) (800, 400) \<and> painted (canvas s2) (800, 400) \<and>
     prefix (canvas s1) (canvas s2) \<and> canvas s1 \<noteq> []"
proof -
  let ?a = "hand21 origin \<lparr>lm_x = 0.2, lm_y = 0.5\<rparr> \<lparr>lm_x = 0.2, lm_y = 0.5\<rparr> origin"
  let ?S = "tracked ?a 1000 800"
  have hand: "handResultsRef ?S = Some \<lparr>multiHandLandmarks = Some [?a]\<rparr>"
    "multiHandLandmarks \<lparr>multiHandLandmarks = Some [?a]\<rparr> = Some (?a # [])"
    "9 < length ?a"
    by (simp_all add: tracked_fields hand21_nth)
  have pinch: "pinchDistance (?a ! 4) (?a ! 8) (width ?S) (height ?S) < 60"
    by (simp add: hand21_nth tracked_fields pinchDistance_level)
  from draw_frame_pinched [OF hand pinch, of zeroRng] obtain s1 ps where
    s1: "draw zeroRng ?S = Inr s1"
      "canvas s1 = canvas ?S @
        cursorRing (sprayX (?a ! 4) (?a ! 8) (width ?S)) (sprayY (?a ! 4) (?a ! 8) (height ?S)) #
        cursorDot (sprayX (?a ! 4) (?a ! 8) (width ?S)) (sprayY (?a ! 4) (?a ! 8) (height ?S))
          (colorIndexRef ?S) # ps"
    by blast
  have "covers (cursorDot (sprayX (?a ! 4) (?a ! 8) (width ?S))
      (sprayY (?a ! 4) (?a ! 8) (height ?S)) (colorIndexRef ?S)) (800, 400)"
    by (simp add: covers_def cursorDot_def visible_def hand21_nth tracked_fields
        sprayX_def sprayY_def)
  with s1(2) have p1: "painted (canvas s1) (800, 400)"
    by (simp add: painted_def)
  from s1(2) have ne: "canvas s1 \<noteq> []"
    by simp
  from draw_fields [OF s1(1)] hand(1) have "handResultsRef s1 = Some \<lparr>multiHandLandmarks = Some [?a]\<rparr>"
    by simp
  from draw_ok [OF this hand(2,3), of zeroRng] obtain s2 where "draw zeroRng s1 = Inr s2"
    by blast
  then have r2: "run zeroRng [Tick] s1 = Inr s2"
    by simp
  have "list_all (\<lambda>e. \<not> clearsCanvas e) [Tick]"
    by simp
  from canvas_accumulates [OF r2 this, of "(800, 400)"] p1 ne r2 s1(1) show ?thesis
    by simp
qed


subsection \<open>The tracked hand persists\<close>

lemma frameCircles_nothing:
  assumes "\<not> (\<exists>res lms others. handResultsRef s = Some res \<and>
      multiHandLandmarks res = Some (lms # others) \<and> 9 < length lms)"
  shows "frameCircles r s = []"
proof (cases "draw r s")
  case (Inl err)
  then show ?thesis by (simp add: frameCircles_def)
next
  case (Inr s')
  then have "s' = s"
    using assms by (cases rule: draw_Inr_cases) blast+
  with Inr show ?thesis by (simp add: frameCircles_def)
qed

lemma frame_determined:
  assumes "handResultsRef a = handResultsRef b" "width a = width b" "height a = height b"
  shows "take 1 (frameCircles r a) = take 1 (frameCircles r b) \<and>
    isSpraying r a = isSpraying r b"
proof (cases "\<exists>res lms others. handResultsRef a = Some res \<and>
      multiHandLandmarks res = Some (lms # others) \<and> 9 < length lms")
  case False
  with assms(1) have "frameCircles r a = []" "frameCircles r b = []"
    by (simp_all add: frameCircles_nothing)
  then show ?thesis by (simp add: isSpraying_def)
next
  case True
  then obtain res lms others where
    ha: "handResultsRef a = Some res" "multiHandLandmarks res = Some (lms # others)"
      "9 < length lms"
    by blast
  from ha(1) assms(1) have hb1: "handResultsRef b = Some res"
    by simp
  show ?thesis
  proof (cases "pinchDistance (lms ! 4) (lms ! 8) (width a) (height a) < 60")
    case pa: True
    with assms(2,3) have pb: "pinchDistance (lms ! 4) (lms ! 8) (width b) (height b) < 60"
      by simp
    from frameCircles_pinched [OF ha pa, of r] frameCircles_pinched [OF hb1 ha(2,3) pb, of r]
    show ?thesis
      using assms(2,3) by (auto simp add: isSpraying_def isFilled_cursor)
  next
    case pa: False
    with assms(2,3) have pb: "\<not> pinchDistance (lms ! 4) (lms ! 8) (width b) (height b) < 60"
      by simp
    from frameCircles_open [OF ha pa, of r] frameCircles_open [OF hb1 ha(2,3) pb, of r]
    show ?thesis
      using assms(2,3) by (simp add: isSpraying_def)
  qed
qed

lemma step_keeps_results:
  assumes "step r e s = Inr s'" "\<not> isOnResults e"
  shows "handResultsRef s' = handResultsRef s"
proof (cases e)
  case Tick
  with assms draw_fields [of r s s'] show ?thesis by simp
next
  case (OnResults results)
  with assms show ?thesis by simp
qed (use assms in \<open>auto simp add: mousePressed_def syncColorRef_def setCurrentColorIndex_def
      keyPressed_def p_clear_def windowResized_def p_resizeCanvas_def\<close>)

lemma step_keeps_size:
  assumes "step r e s = Inr s'" "\<not> isWindowResized e"
  shows "width s' = width s \<and> height s' = height s"
proof (cases e)
  case Tick
  with assms draw_fields [of r s s'] show ?thesis by simp
next
  case (WindowResized w h)
  with assms show ?thesis by simp
qed (use assms in \<open>auto simp add: mousePressed_def syncColorRef_def setCurrentColorIndex_def
      keyPressed_def p_clear_def onResults_def\<close>)

lemma run_keeps_results:
  assumes "run r es s = Inr s'" "list_all (\<lambda>e. \<not> isOnResults e) es"
  shows "handResultsRef s' = handResultsRef s"
  using assms
proof (induction es arbitrary: s)
  case Nil
  then show ?case by simp
next
  case (Cons e es)
  from Cons.prems(1) obtain s1 where s1: "step r e s = Inr s1" "run r es s1 = Inr s'"
    by (auto split: sum.splits)
  from s1(1) Cons.prems(2) have "handResultsRef s1 = handResultsRef s"
    by (simp add: step_keeps_results)
  moreover from Cons.IH [OF s1(2)] Cons.prems(2) have "handResultsRef s' = handResultsRef s1"
    by simp
  ultimately show ?case by simp
qed

lemma run_keeps_size:
  assumes "run r es s = Inr s'" "list_all (\<lambda>e. \<not> isWindowResized e) es"
  shows "width s' = width s \<and> height s' = height s"
  using assms
proof (induction es arbitrary: s)
  case Nil
  then show ?case by simp
next
  case (Cons e es)
  from Cons.prems(1) obtain s1 where s1: "step r e s = Inr s1" "run r es s1 = Inr s'"
    by (auto split: sum.splits)
  from s1(1) Cons.prems(2) have "width s1 = width s \<and> height s1 = height s"
    by (simp add: step_keeps_size)
  moreover from Cons.IH [OF s1(2)] Cons.prems(2)
  have "width s' = width s1 \<and> height s' = height s1"
    by simp
  ultimately show ?case by simp
qed

text \<open>A run without tracker results does not throw if a render tick would not throw at
  its start.\<close>

lemma draw_throws_same:
  assumes "handResultsRef a = handResultsRef b" "draw r a = Inr a'"
  shows "\<exists>b'. draw r b = Inr b'"
  using assms(2)
proof (cases rule: draw_Inr_cases)
  case idle
  have "\<not> (\<exists>res lms others. handResultsRef b = Some res \<and>
      multiHandLandmarks res = Some (lms # others) \<and> 9 < length lms) \<or>
      (\<exists>res lms others. handResultsRef b = Some res \<and>
      multiHandLandmarks res = Some (lms # others) \<and> 9 < length lms)"
    by blast
  then show ?thesis
  proof
    assume "\<exists>res lms others. handResultsRef b = Some res \<and>
      multiHandLandmarks res = Some (lms # others) \<and> 9 < length lms"
    then show ?thesis using draw_ok by blast
  next
    assume nb: "\<not> (\<exists>res lms others. handResultsRef b = Some res \<and>
      multiHandLandmarks res = Some (lms # others) \<and> 9 < length lms)"
    show ?thesis
    proof (cases "handResultsRef b")
      case None
      then show ?thesis by (simp add: draw_def)
    next
      case (Some res)
      show ?thesis
      proof (cases "multiHandLandmarks res")
        case None
        with Some show ?thesis by (simp add: draw_def)
      next
        case hands: (Some hs)
        show ?thesis
        proof (cases hs)
          case Nil
          with Some hands show ?thesis by (simp add: draw_def)
        next
          case (Cons lms others)
          with nb Some hands have short: "\<not> 9 < length lms"
            by simp
          then have "landmarkAt lms 9 = None" by (simp add: landmarkAt_def)
          with Some hands Cons assms(1) have "draw r a = Inl TypeError"
            by (simp add: draw_def Let_def split: option.splits)
          with assms(2) show ?thesis by simp
        qed
      qed
    qed
  qed
next
  case (hand res lms others)
  with assms(1) have "handResultsRef b = Some res"
    by simp
  from draw_ok [OF this hand(2,3)] show ?thesis .
qed

lemma run_does_not_throw:
  assumes "draw r s = Inr s0" "list_all (\<lambda>e. \<not> isOnResults e) es"
  shows "\<exists>s'. run r es s = Inr s'"
  using assms
proof (induction es arbitrary: s s0)
  case Nil
  show ?case by simp
next
  case (Cons e es)
  have "\<exists>s1. step r e s = Inr s1"
    using Cons.prems(1) by (cases e) simp_all
  then obtain s1 where s1: "step r e s = Inr s1"
    by blast
  from s1 Cons.prems(2) have "handResultsRef s1 = handResultsRef s"
    by (simp add: step_keeps_results)
  from draw_throws_same [OF this [symmetric] Cons.prems(1)] obtain s2 where
    "draw r s1 = Inr s2"
    by blast
  from Cons.IH [OF this] Cons.prems(2) obtain s' where "run r es s1 = Inr s'"
    by auto
  with s1 show ?case by simp
qed

text \<open>
  C9. Sticky hand state: over any run of callbacks without a tracker result, however many
  render ticks it has, the result that \<open>draw\<close> reads is the one it read at the
  start, so a tracked hand is never dropped for lack of a new result; if the window was
  not resized either, the canvas size is the same too, and a render tick at the end
  paints the cursor ring where a tick at the start would and sprays exactly if that one
  would.
\<close>

theorem hand_state_sticky:
  assumes "run r es s = Inr s'" "list_all (\<lambda>e. \<not> isOnResults e) es"
  shows "handResultsRef s' = handResultsRef s \<and>
    (list_all (\<lambda>e. \<not> isWindowResized e) es \<longrightarrow>
       width s' = width s \<and> height s' = height s \<and>
       take 1 (frameCircles r s') = take 1 (frameCircles r s) \<and>
       isSpraying r s' = isSpraying r s)"
proof -
  have res: "handResultsRef s' = handResultsRef s"
    using assms by (rule run_keeps_results)
  have "take 1 (frameCircles r s') = take 1 (frameCircles r s) \<and>
      isSpraying r s' = isSpraying r s"
    if "width s' = width s \<and> height s' = height s"
    using frame_determined [of s' s r] res that by simp
  with res run_keeps_size [OF assms(1)] show ?thesis
    by blast
qed

theorem hand_state_sticky_witness:
  "\<exists>s'. run zeroRng [Tick, MousePressed, ColorEffect, Tick, KeyPressed '' '', Tick, Tick]
       (tracked (hand21 origin \<lparr>lm_x = 0.2, lm_y = 0.5\<rparr> \<lparr>lm_x = 0.4, lm_y = 0.5\<rparr> origin)
          1000 800) = Inr s' \<and>
     handResultsRef s' = Some \<lparr>multiHandLandmarks = Some
       [hand21 origin \<lparr>lm_x = 0.2, lm_y = 0.5\<rparr> \<lparr>lm_x = 0.4, lm_y = 0.5\<rparr> origin]\<rparr> \<and>
     take 1 (frameCircles zeroRng s') = [cursorRing 700 400] \<and>
     \<not> isSpraying zeroRng s'"
proof -
  let ?a = "hand21 origin \<lparr>lm_x = 0.2, lm_y = 0.5\<rparr> \<lparr>lm_x = 0.4, lm_y = 0.5\<rparr> origin"
  let ?S = "tracked ?a 1000 800"
  let ?es = "[Tick, MousePressed, ColorEffect, Tick, KeyPressed '' '', Tick, Tick]"
  have hand: "handResultsRef ?S = Some \<lparr>multiHandLandmarks = Some [?a]\<rparr>"
    "multiHandLandmarks \<lparr>multiHandLandmarks = Some [?a]\<rparr> = Some (?a # [])"
    "9 < length ?a"
    by (simp_all add: tracked_fields hand21_nth)
  have pinch: "\<not> pinchDistance (?a ! 4) (?a ! 8) (width ?S) (height ?S) < 60"
    by (simp add: hand21_nth tracked_fields pinchDistance_level)
  have frame: "frameCircles zeroRng ?S = [cursorRing 700 400]"
    using frameCircles_open [OF hand pinch, of zeroRng]
    by (simp add: hand21_nth tracked_fields sprayX_def sprayY_def)
  then have idle: "\<not> isSpraying zeroRng ?S"
    by (simp add: isSpraying_def isFilled_cursor)
  have quiet: "list_all (\<lambda>e. \<not> isOnResults e) ?es"
    and still: "list_all (\<lambda>e. \<not> isWindowResized e) ?es"
    by simp_all
  from draw_ok [OF hand, of zeroRng] obtain s0 where "draw zeroRng ?S = Inr s0"
    by blast
  from run_does_not_throw [OF this quiet] obtain s' where run: "run zeroRng ?es ?S = Inr s'"
    by blast
  from hand_state_sticky [OF run quiet] still hand(1) frame idle run show ?thesis
    by simp
qed

end
